theory Spec2Isabelle
  imports Main
begin

section \<open>Wire types (frontend/lib/types.ts)\<close>

text \<open>
  The frontend's data is modelled as the TypeScript declares it: every interface is a
  record with the source's field names, every tagged union a datatype.

  \<^item> A JavaScript \<open>string\<close> is a \<open>string\<close>; \<open>+\<close> on strings and template
    literals are list append.
  \<^item> A JavaScript \<open>number\<close> is an IEEE double. The reducer only stores numbers, adds
    them (\<open>token_usage\<close>) and prints them into template literals, so the number type is
    the type parameter \<open>'n\<close> with an addition; nothing else is assumed about it.
  \<^item> \<open>T | null\<close> is \<open>T option\<close>.
  \<^item> \<open>Record<string, unknown>\<close> is a map from strings to values of an unspecified type.
\<close>

typedecl unknown

datatype AgentEntry =
    Text string
  | ToolExecuting string string
  | ToolResult string string bool
  | UserMessage string
  | TodoUpdate string

datatype LogLevel = Trace | Debug | Info | Warn | Error

record LogLine =
  time :: string
  level :: LogLevel
  message :: string

record QuestionChoice =
  label :: string
  body :: string
  metadata :: string

record 'n UserQuestion =
  prompt :: string
  choices :: "QuestionChoice list"
  editable :: bool
  max_edit_length :: "'n option"

text \<open>The field \<open>done\<close> of the source is \<open>is_done\<close> here (\<open>done\<close> is reserved).\<close>

record 'n ActiveQuestionSnapshot =
  question :: "'n UserQuestion"
  remaining_secs :: "'n option"
  is_done :: bool

record 'n UiStateSnapshot =
  phase :: string
  round :: 'n
  max_rounds :: 'n
  context_pct :: 'n
  model :: string
  cycle :: 'n
  agent_output :: "AgentEntry list"
  streaming_buffer :: string
  logs :: "LogLine list"
  running :: bool
  next_cycle_secs :: "'n option"
  active_question :: "'n ActiveQuestionSnapshot option"
  extension :: "(string \<rightharpoonup> unknown) option"

record 'n AgentState =
  phase :: string
  round :: 'n
  maxRounds :: 'n
  contextPct :: 'n
  model :: string
  cycle :: 'n
  entries :: "AgentEntry list"
  streamingBuffer :: string
  reasoningBuffer :: string
  logs :: "LogLine list"
  running :: bool
  nextCycleSecs :: "'n option"
  activeQuestion :: "'n ActiveQuestionSnapshot option"
  extension :: "(string \<rightharpoonup> unknown) option"
  totalPromptTokens :: 'n
  totalCompletionTokens :: 'n

definition INITIAL_STATE :: "('n::zero) AgentState" where
  "INITIAL_STATE =
     \<lparr> phase = ''Connecting...'', round = 0, maxRounds = 0, contextPct = 0, model = '''',
       cycle = 0, entries = [], streamingBuffer = '''', reasoningBuffer = '''', logs = [],
       running = True, nextCycleSecs = None, activeQuestion = None, extension = None,
       totalPromptTokens = 0, totalCompletionTokens = 0 \<rparr>"

section \<open>Server messages and the state reducer (frontend/lib/protocol.ts)\<close>

text \<open>
  \<open>WsServerMessage\<close>: one constructor per member of the union, in the source's order, with
  the member's fields in the source's order. The reducer receives whatever \<open>JSON.parse\<close>
  returned, so at run time it also meets objects whose \<open>type\<close> is none of the union's
  discriminators: \<open>M_unrecognized t\<close> is such an object with \<open>type\<close> equal to \<open>t\<close>.
\<close>

datatype 'n WsServerMessage =
    M_snapshot "'n UiStateSnapshot"
  | M_text string
  | M_text_delta string
  | M_tool_executing string string
  | M_tool_result string string bool
  | M_reasoning string
  | M_reasoning_delta string
  | M_round 'n 'n 'n
  | M_phase string
  | M_question "'n UserQuestion"
  | M_question_dismissed
  | M_finished
  | M_log LogLine
  | M_extension "string \<rightharpoonup> unknown"
  | M_user_message string
  | M_token_usage 'n 'n
  | M_tool_calls_received 'n 'n
  | M_tool_cache_hit string string
  | M_eviction 'n 'n
  | M_compaction 'n
  | M_model_routed string 'n
  | M_checkpoint_saved 'n string
  | M_checkpoint_resumed 'n
  | M_empty_response 'n 'n 'n
  | M_approval_required string string
  | M_todo_update string
  | M_unrecognized string

text \<open>The value of the message's \<open>type\<close> field, on which \<open>applyMessage\<close> switches.\<close>

fun msg_type :: "'n WsServerMessage \<Rightarrow> string" where
  "msg_type (M_snapshot d) = ''snapshot''"
| "msg_type (M_text t) = ''text''"
| "msg_type (M_text_delta d) = ''text_delta''"
| "msg_type (M_tool_executing n a) = ''tool_executing''"
| "msg_type (M_tool_result n r e) = ''tool_result''"
| "msg_type (M_reasoning t) = ''reasoning''"
| "msg_type (M_reasoning_delta d) = ''reasoning_delta''"
| "msg_type (M_round r m c) = ''round''"
| "msg_type (M_phase p) = ''phase''"
| "msg_type (M_question q) = ''question''"
| "msg_type M_question_dismissed = ''question_dismissed''"
| "msg_type M_finished = ''finished''"
| "msg_type (M_log l) = ''log''"
| "msg_type (M_extension d) = ''extension''"
| "msg_type (M_user_message m) = ''user_message''"
| "msg_type (M_token_usage p c) = ''token_usage''"
| "msg_type (M_tool_calls_received r c) = ''tool_calls_received''"
| "msg_type (M_tool_cache_hit n a) = ''tool_cache_hit''"
| "msg_type (M_eviction f c) = ''eviction''"
| "msg_type (M_compaction n) = ''compaction''"
| "msg_type (M_model_routed m r) = ''model_routed''"
| "msg_type (M_checkpoint_saved r p) = ''checkpoint_saved''"
| "msg_type (M_checkpoint_resumed r) = ''checkpoint_resumed''"
| "msg_type (M_empty_response r a m) = ''empty_response''"
| "msg_type (M_approval_required n a) = ''approval_required''"
| "msg_type (M_todo_update c) = ''todo_update''"
| "msg_type (M_unrecognized t) = t"

text \<open>The \<open>case\<close> labels of the reducer's \<open>switch\<close>, in the source's order.\<close>

definition case_labels :: "string list" where
  "case_labels =
     [''snapshot'', ''text'', ''text_delta'', ''tool_executing'', ''tool_result'',
      ''reasoning'', ''reasoning_delta'', ''round'', ''phase'', ''question'',
      ''question_dismissed'', ''finished'', ''log'', ''extension'', ''user_message'',
      ''token_usage'', ''tool_calls_received'', ''tool_cache_hit'', ''model_routed'',
      ''eviction'', ''compaction'', ''checkpoint_saved'', ''checkpoint_resumed'',
      ''empty_response'', ''approval_required'', ''todo_update'']"

text \<open>
  What the reducer takes from the JavaScript host, made explicit:
  \<^item> \<open>toLocaleTimeString\<close>: the value of \<open>new Date().toLocaleTimeString()\<close> at the
    moment of the call, that is, the reading of the wall clock;
  \<^item> \<open>numberToString\<close>: the text a number has inside a template literal;
  \<^item> \<open>stringify_reasoning\<close>: \<open>text \<mapsto> JSON.stringify({ reasoning: text })\<close>.
\<close>

record 'n host =
  toLocaleTimeString :: string
  numberToString :: "'n \<Rightarrow> string"
  stringify_reasoning :: "string \<Rightarrow> string"

text \<open>\<open>"TodoUpdate" in e\<close>.\<close>

fun isTodoUpdate :: "AgentEntry \<Rightarrow> bool" where
  "isTodoUpdate (TodoUpdate c) = True"
| "isTodoUpdate e = False"

text \<open>\<open>Array.prototype.findIndex\<close>: the first index whose element satisfies the
  predicate, \<open>-1\<close> when there is none.\<close>

fun findIndex :: "('a \<Rightarrow> bool) \<Rightarrow> 'a list \<Rightarrow> int" where
  "findIndex p [] = - 1"
| "findIndex p (x # xs) =
     (if p x then 0 else (let r = findIndex p xs in if r < 0 then - 1 else r + 1))"

fun applyMessage :: "('n::plus) host \<Rightarrow> 'n AgentState \<Rightarrow> 'n WsServerMessage \<Rightarrow> 'n AgentState" where
  "applyMessage h prev (M_snapshot s) =
     \<lparr> phase = UiStateSnapshot.phase s,
       round = UiStateSnapshot.round s,
       maxRounds = max_rounds s,
       contextPct = context_pct s,
       model = UiStateSnapshot.model s,
       cycle = UiStateSnapshot.cycle s,
       entries = agent_output s,
       streamingBuffer = streaming_buffer s,
       reasoningBuffer = '''',
       logs = UiStateSnapshot.logs s,
       running = UiStateSnapshot.running s,
       nextCycleSecs = next_cycle_secs s,
       activeQuestion = active_question s,
       extension = UiStateSnapshot.extension s,
       totalPromptTokens = totalPromptTokens prev,
       totalCompletionTokens = totalCompletionTokens prev \<rparr>"
| "applyMessage h prev (M_text t) =
     prev\<lparr> entries := entries prev @ [Text t], streamingBuffer := '''' \<rparr>"
| "applyMessage h prev (M_text_delta delta) =
     prev\<lparr> streamingBuffer := streamingBuffer prev @ delta \<rparr>"
| "applyMessage h prev (M_tool_executing name arguments) =
     prev\<lparr> phase := ''Tool: '' @ name,
           entries := entries prev @ [ToolExecuting name arguments] \<rparr>"
| "applyMessage h prev (M_tool_result name result is_error) =
     prev\<lparr> entries := entries prev @ [ToolResult name result is_error] \<rparr>"
| "applyMessage h prev (M_reasoning t) =
     prev\<lparr> entries := entries prev @
             [ToolExecuting ''think'' (stringify_reasoning h t),
              ToolResult ''think'' ''ok'' False],
           reasoningBuffer := '''' \<rparr>"
| "applyMessage h prev (M_reasoning_delta delta) =
     prev\<lparr> reasoningBuffer := reasoningBuffer prev @ delta \<rparr>"
| "applyMessage h prev (M_round r mr cp) =
     prev\<lparr> round := r, maxRounds := mr, contextPct := cp \<rparr>"
| "applyMessage h prev (M_phase p) = prev\<lparr> phase := p \<rparr>"
| "applyMessage h prev (M_question q) =
     prev\<lparr> activeQuestion :=
             Some \<lparr> question = q, remaining_secs = None, is_done = False \<rparr> \<rparr>"
| "applyMessage h prev M_question_dismissed = prev\<lparr> activeQuestion := None \<rparr>"
| "applyMessage h prev M_finished = prev\<lparr> running := False, phase := ''Finished'' \<rparr>"
| "applyMessage h prev (M_log line) = prev\<lparr> logs := logs prev @ [line] \<rparr>"
| "applyMessage h prev (M_extension d) = prev\<lparr> extension := Some d \<rparr>"
| "applyMessage h prev (M_user_message m) =
     prev\<lparr> entries := entries prev @ [UserMessage m] \<rparr>"
| "applyMessage h prev (M_token_usage prompt_tokens completion_tokens) =
     prev\<lparr> totalPromptTokens := totalPromptTokens prev + prompt_tokens,
           totalCompletionTokens := totalCompletionTokens prev + completion_tokens \<rparr>"
| "applyMessage h prev (M_tool_calls_received r count) =
     prev\<lparr> phase := numberToString h count @ '' tool call(s)'' \<rparr>"
| "applyMessage h prev (M_tool_cache_hit name arguments) =
     prev\<lparr> entries := entries prev @ [ToolExecuting (name @ '' (cached)'') arguments] \<rparr>"
| "applyMessage h prev (M_model_routed m r) = prev\<lparr> model := m \<rparr>"
| "applyMessage h prev (M_eviction freed_chars evicted_count) =
     prev\<lparr> logs := logs prev @
             [\<lparr> time = toLocaleTimeString h, level = Info,
                message = ''Context eviction: freed '' @ numberToString h freed_chars @
                  '' chars from '' @ numberToString h evicted_count @ '' tool result(s)'' \<rparr>] \<rparr>"
| "applyMessage h prev (M_compaction compaction_number) =
     prev\<lparr> logs := logs prev @
             [\<lparr> time = toLocaleTimeString h, level = Info,
                message = ''Context compaction #'' @ numberToString h compaction_number @
                  '' completed'' \<rparr>] \<rparr>"
| "applyMessage h prev (M_checkpoint_saved r path) =
     prev\<lparr> logs := logs prev @
             [\<lparr> time = toLocaleTimeString h, level = Debug,
                message = ''Checkpoint saved at round '' @ numberToString h r @
                  '': '' @ path \<rparr>] \<rparr>"
| "applyMessage h prev (M_checkpoint_resumed r) =
     prev\<lparr> logs := logs prev @
             [\<lparr> time = toLocaleTimeString h, level = Info,
                message = ''Resumed from checkpoint at round '' @ numberToString h r \<rparr>] \<rparr>"
| "applyMessage h prev (M_empty_response r attempt max_retries) =
     prev\<lparr> phase := ''Retrying ('' @ numberToString h attempt @ ''/'' @
             numberToString h max_retries @ '')'',
           logs := logs prev @
             [\<lparr> time = toLocaleTimeString h, level = Warn,
                message = ''Empty API response at round '' @ numberToString h r @
                  '', retrying ('' @ numberToString h attempt @ ''/'' @
                  numberToString h max_retries @ '')'' \<rparr>] \<rparr>"
| "applyMessage h prev (M_approval_required name arguments) =
     prev\<lparr> logs := logs prev @
             [\<lparr> time = toLocaleTimeString h, level = Info,
                message = ''Approval required for tool: '' @ name \<rparr>] \<rparr>"
| "applyMessage h prev (M_todo_update content) =
     (let idx = findIndex isTodoUpdate (entries prev) in
      if idx \<ge> 0 then prev\<lparr> entries := (entries prev)[nat idx := TodoUpdate content] \<rparr>
      else prev\<lparr> entries := entries prev @ [TodoUpdate content] \<rparr>)"
| "applyMessage h prev (M_unrecognized t) = prev"

text \<open>
  A run of the reducer over the messages of a session:
  \<open>setState((prev) => applyMessage(prev, msg))\<close> for each message in the order of
  arrival. Each message comes with the host as it is when the message is reduced (the
  clock moves between two calls).
\<close>

definition applyMessages ::
    "('n::plus) AgentState \<Rightarrow> ('n host \<times> 'n WsServerMessage) list \<Rightarrow> 'n AgentState" where
  "applyMessages S hms = foldl (\<lambda>s (h, m). applyMessage h s m) S hms"

text \<open>The messages whose case evaluates \<open>new Date().toLocaleTimeString()\<close>.\<close>

fun reads_clock :: "'n WsServerMessage \<Rightarrow> bool" where
  "reads_clock (M_eviction f c) = True"
| "reads_clock (M_compaction n) = True"
| "reads_clock (M_checkpoint_saved r p) = True"
| "reads_clock (M_checkpoint_resumed r) = True"
| "reads_clock (M_empty_response r a m) = True"
| "reads_clock (M_approval_required n a) = True"
| "reads_clock m = False"

subsection \<open>A host for concrete runs\<close>

text \<open>
  The concrete runs below need a host. Numbers are integers there; JavaScript prints an
  integer of magnitude below \<open>10^21\<close> in decimal, with a minus sign when negative.
  \<open>JSON.stringify\<close> of a string puts it in double quotes and escapes the double quote, the
  backslash and the control characters.
\<close>

fun digits :: "nat \<Rightarrow> string" where
  "digits n =
     (if n < 10 then [''0123456789'' ! n]
      else digits (n div 10) @ [''0123456789'' ! (n mod 10)])"

declare digits.simps [simp del]

definition decimal :: "int \<Rightarrow> string" where
  "decimal i = (if i < 0 then ''-'' @ digits (nat (- i)) else digits (nat i))"

definition json_escape :: "char \<Rightarrow> string" where
  "json_escape c =
     (if c = CHR 0x22 then [CHR 0x5C, CHR 0x22]
      else if c = CHR 0x5C then [CHR 0x5C, CHR 0x5C]
      else if c = CHR 0x08 then [CHR 0x5C, CHR ''b'']
      else if c = CHR 0x0C then [CHR 0x5C, CHR ''f'']
      else if c = CHR 0x0A then [CHR 0x5C, CHR ''n'']
      else if c = CHR 0x0D then [CHR 0x5C, CHR ''r'']
      else if c = CHR 0x09 then [CHR 0x5C, CHR ''t'']
      else if (of_char c :: nat) < 32 then
        [CHR 0x5C, CHR ''u'', CHR ''0'', CHR ''0'',
         ''0123456789abcdef'' ! (of_char c div 16), ''0123456789abcdef'' ! (of_char c mod 16)]
      else [c])"

definition json_string :: "string \<Rightarrow> string" where
  "json_string s = [CHR 0x22] @ concat (map json_escape s) @ [CHR 0x22]"

definition example_host :: "string \<Rightarrow> int host" where
  "example_host clock =
     \<lparr> toLocaleTimeString = clock,
       numberToString = decimal,
       stringify_reasoning =
         (\<lambda>t. [CHR 0x7B] @ json_string ''reasoning'' @ '':'' @ json_string t @ [CHR 0x7D]) \<rparr>"

section \<open>The entry resolver (frontend/components/InspectorPanel.tsx)\<close>

text \<open>
  \<open>ResolvedEntry\<close>: \<open>R_tool name arguments result isError\<close>, where \<open>None\<close> is the
  source's \<open>undefined\<close>; \<open>R_orphan_result name result isError\<close>.
\<close>

datatype ResolvedEntry =
    R_text string
  | R_user string
  | R_tool string string "string option" "bool option"
  | R_orphan_result string string bool
  | R_todo string

text \<open>\<open>es[i]\<close> for an integer \<open>i\<close>: \<open>undefined\<close> (here \<open>None\<close>) outside the array.\<close>

definition elem_at :: "'a list \<Rightarrow> int \<Rightarrow> 'a option" where
  "elem_at es i = (if 0 \<le> i \<and> i < int (length es) then Some (es ! nat i) else None)"

text \<open>
  The body of the \<open>for\<close> loop of \<open>resolveEntries\<close> at index \<open>i\<close> (below the length,
  by the loop's guard): \<open>resolved\<close> is returned with what the body pushed; \<open>continue\<close>
  returns it as it is.
\<close>

definition resolveStep ::
    "AgentEntry list \<Rightarrow> nat \<Rightarrow> ResolvedEntry list \<Rightarrow> ResolvedEntry list" where
  "resolveStep es i resolved =
     (case es ! i of
        UserMessage m \<Rightarrow> resolved @ [R_user m]
      | Text t \<Rightarrow> resolved @ [R_text t]
      | ToolExecuting name arguments \<Rightarrow>
          (case elem_at es (int i + 1) of
             Some (ToolResult next_name next_result next_is_error) \<Rightarrow>
               if next_name = name
               then resolved @ [R_tool name arguments (Some next_result) (Some next_is_error)]
               else resolved @ [R_tool name arguments None None]
           | _ \<Rightarrow> resolved @ [R_tool name arguments None None])
      | ToolResult name result is_error \<Rightarrow>
          (case elem_at es (int i - 1) of
             Some (ToolExecuting prev_name prev_arguments) \<Rightarrow>
               if prev_name = name then resolved
               else resolved @ [R_orphan_result name result is_error]
           | _ \<Rightarrow> resolved @ [R_orphan_result name result is_error])
      | TodoUpdate c \<Rightarrow> resolved @ [R_todo c])"

function resolveLoop ::
    "AgentEntry list \<Rightarrow> nat \<Rightarrow> ResolvedEntry list \<Rightarrow> ResolvedEntry list" where
  "resolveLoop es i resolved =
     (if i < length es then resolveLoop es (i + 1) (resolveStep es i resolved) else resolved)"
  by pat_completeness auto
termination
  by (relation "measure (\<lambda>(es, i, resolved). length es - i)") auto

declare resolveLoop.simps [simp del]

definition resolveEntries :: "AgentEntry list \<Rightarrow> ResolvedEntry list" where
  "resolveEntries es = resolveLoop es 0 []"

text \<open>
  The same pass as a recursion over the list, pairing greedily from the left; it is
  proved equal to \<open>resolveEntries\<close> below (\<open>resolveEntries_greedy\<close>) and serves the proofs.
\<close>

fun greedy :: "AgentEntry list \<Rightarrow> ResolvedEntry list" where
  "greedy [] = []"
| "greedy (ToolExecuting n a # ToolResult n' r e # rest) =
     (if n' = n then R_tool n a (Some r) (Some e) # greedy rest
      else R_tool n a None None # greedy (ToolResult n' r e # rest))"
| "greedy (ToolExecuting n a # rest) = R_tool n a None None # greedy rest"
| "greedy (ToolResult n r e # rest) = R_orphan_result n r e # greedy rest"
| "greedy (Text t # rest) = R_text t # greedy rest"
| "greedy (UserMessage m # rest) = R_user m # greedy rest"
| "greedy (TodoUpdate c # rest) = R_todo c # greedy rest"

text \<open>\<open>adjacent_pair x y\<close>: \<open>x\<close> is a \<open>ToolExecuting\<close> and \<open>y\<close> a \<open>ToolResult\<close> of the same
  name. \<open>paired es i\<close>: the entry at \<open>i\<close> is such a \<open>ToolResult\<close> for the entry before it.\<close>

fun adjacent_pair :: "AgentEntry \<Rightarrow> AgentEntry \<Rightarrow> bool" where
  "adjacent_pair (ToolExecuting n a) (ToolResult n' r e) = (n' = n)"
| "adjacent_pair x y = False"

definition paired :: "AgentEntry list \<Rightarrow> nat \<Rightarrow> bool" where
  "paired es i = (0 < i \<and> i < length es \<and> adjacent_pair (es ! (i - 1)) (es ! i))"

text \<open>The \<open>(name, result, is_error)\<close> of a raw entry that is a \<open>ToolResult\<close>, and of a
  resolved entry that shows a result.\<close>

fun result_of :: "AgentEntry \<Rightarrow> (string \<times> string \<times> bool) list" where
  "result_of (ToolResult n r e) = [(n, r, e)]"
| "result_of x = []"

fun shown_result :: "ResolvedEntry \<Rightarrow> (string \<times> string \<times> bool) list" where
  "shown_result (R_tool n a (Some r) (Some e)) = [(n, r, e)]"
| "shown_result (R_orphan_result n r e) = [(n, r, e)]"
| "shown_result x = []"

section \<open>The connection manager (frontend/hooks/useAgentSocket.ts)\<close>

text \<open>
  The state the hook keeps: \<open>connected\<close> (\<open>useState(false)\<close>), \<open>wsRef\<close> (whether it
  holds a socket), \<open>retryDelayRef\<close> (\<open>useRef(1000)\<close>), and the effect's locals
  \<open>cancelled\<close> and \<open>timeoutId\<close> (the delay of the pending reconnect timer). Delays are
  whole milliseconds, far below \<open>2^53\<close>, where JavaScript's arithmetic is that of the
  integers.
\<close>

record socket =
  connected :: bool
  wsRef :: bool
  retryDelayRef :: int
  cancelled :: bool
  timeoutId :: "int option"

definition MAX_RETRY_DELAY :: int where
  "MAX_RETRY_DELAY = 16000"

definition socket_init :: socket where
  "socket_init =
     \<lparr> connected = False, wsRef = False, retryDelayRef = 1000, cancelled = False,
       timeoutId = None \<rparr>"

definition connect :: "socket \<Rightarrow> socket" where
  "connect s = (if cancelled s then s else s\<lparr> wsRef := True \<rparr>)"

definition onopen :: "socket \<Rightarrow> socket" where
  "onopen s = s\<lparr> connected := True, retryDelayRef := 1000 \<rparr>"

definition onclose :: "socket \<Rightarrow> socket" where
  "onclose s =
     (let s1 = s\<lparr> connected := False, wsRef := False \<rparr> in
      if \<not> cancelled s1 then
        (let delay = min (retryDelayRef s1) MAX_RETRY_DELAY in
         s1\<lparr> retryDelayRef := delay * 2, timeoutId := Some delay \<rparr>)
      else s1)"

text \<open>A closure followed by the reconnect attempt that its timer starts.\<close>

definition failed_attempt :: "socket \<Rightarrow> socket" where
  "failed_attempt s = connect (onclose s)"

section \<open>The connection status toast (frontend/components/ConnectionStatus.tsx)\<close>

datatype Phase = hidden | disconnected | reconnected | exiting

text \<open>
  \<open>phaseRef\<close> and \<open>prevConnectedRef\<close> are the component's refs; \<open>timer\<close> and
  \<open>exitTimer\<close> are the timeouts of the latest run of the effect, each with the
  milliseconds left until its callback runs (\<open>None\<close>: not set, cleared or run).
\<close>

record status =
  phaseRef :: Phase
  prevConnectedRef :: bool
  timer :: "nat option"
  exitTimer :: "nat option"

definition status_init :: status where
  "status_init =
     \<lparr> phaseRef = hidden, prevConnectedRef = True, timer = None, exitTimer = None \<rparr>"

text \<open>The body of the effect, run with the value \<open>conn\<close> of \<open>connected\<close>.\<close>

definition effect :: "bool \<Rightarrow> status \<Rightarrow> status" where
  "effect conn s =
     (let wasConnected = prevConnectedRef s;
          s1 = s\<lparr> prevConnectedRef := conn \<rparr> in
      if \<not> conn then s1\<lparr> phaseRef := disconnected \<rparr>
      else if \<not> wasConnected then
        s1\<lparr> phaseRef := reconnected, timer := Some 2000, exitTimer := Some 2350 \<rparr>
      else s1)"

text \<open>The function the effect returns, which React runs before the effect's next run.\<close>

definition cleanup :: "status \<Rightarrow> status" where
  "cleanup s = s\<lparr> timer := None, exitTimer := None \<rparr>"

text \<open>
  React runs the effect after the first render, and after a later render when
  \<open>connected\<close> differs from its value at the render before (\<open>setPhase\<close> is stable);
  that value is the one the effect's last run stored in \<open>prevConnectedRef\<close>.
\<close>

definition mount :: "bool \<Rightarrow> status" where
  "mount conn = effect conn status_init"

definition render :: "bool \<Rightarrow> status \<Rightarrow> status" where
  "render conn s = (if conn = prevConnectedRef s then s else effect conn (cleanup s))"

text \<open>
  \<open>d\<close> milliseconds pass with no render: a timeout whose delay has passed runs its
  callback (\<open>timer\<close>, set with the shorter delay, before \<open>exitTimer\<close>).
\<close>

definition advance :: "nat \<Rightarrow> status \<Rightarrow> status" where
  "advance d s =
     (let s1 = (case timer s of
                  None \<Rightarrow> s
                | Some t \<Rightarrow> if t \<le> d then s\<lparr> phaseRef := exiting, timer := None \<rparr>
                            else s\<lparr> timer := Some (t - d) \<rparr>) in
      case exitTimer s1 of
        None \<Rightarrow> s1
      | Some t \<Rightarrow> if t \<le> d then s1\<lparr> phaseRef := hidden, exitTimer := None \<rparr>
                  else s1\<lparr> exitTimer := Some (t - d) \<rparr>)"

text \<open>
  The page (\<open>AgentPage\<close>) holds the hook's state and renders \<open>ConnectionStatus\<close> with the
  hook's \<open>connected\<close>: on load with its initial value, and again after each
  \<open>setConnected\<close>.
\<close>

record page =
  sock :: socket
  toast :: status

definition page_load :: page where
  "page_load = \<lparr> sock = connect socket_init, toast = mount (connected socket_init) \<rparr>"

definition page_onopen :: "page \<Rightarrow> page" where
  "page_onopen p =
     (let s = onopen (sock p) in \<lparr> sock = s, toast = render (connected s) (toast p) \<rparr>)"

definition page_onclose :: "page \<Rightarrow> page" where
  "page_onclose p =
     (let s = onclose (sock p) in \<lparr> sock = s, toast = render (connected s) (toast p) \<rparr>)"

section \<open>The reducer: snapshot\<close>

text \<open>
  C1. For every session state and every snapshot message, the reducer returns a state
  whose two token counters are those of the previous state, whose \<open>reasoningBuffer\<close> is
  empty, and whose every other field is the corresponding field of the snapshot's data.
\<close>

theorem snapshot_carries_counters:
  "totalPromptTokens (applyMessage h S (M_snapshot d)) = totalPromptTokens S \<and>
   totalCompletionTokens (applyMessage h S (M_snapshot d)) = totalCompletionTokens S \<and>
   reasoningBuffer (applyMessage h S (M_snapshot d)) = '''' \<and>
   phase (applyMessage h S (M_snapshot d)) = UiStateSnapshot.phase d \<and>
   round (applyMessage h S (M_snapshot d)) = UiStateSnapshot.round d \<and>
   maxRounds (applyMessage h S (M_snapshot d)) = max_rounds d \<and>
   contextPct (applyMessage h S (M_snapshot d)) = context_pct d \<and>
   model (applyMessage h S (M_snapshot d)) = UiStateSnapshot.model d \<and>
   cycle (applyMessage h S (M_snapshot d)) = UiStateSnapshot.cycle d \<and>
   entries (applyMessage h S (M_snapshot d)) = agent_output d \<and>
   streamingBuffer (applyMessage h S (M_snapshot d)) = streaming_buffer d \<and>
   logs (applyMessage h S (M_snapshot d)) = UiStateSnapshot.logs d \<and>
   running (applyMessage h S (M_snapshot d)) = UiStateSnapshot.running d \<and>
   nextCycleSecs (applyMessage h S (M_snapshot d)) = next_cycle_secs d \<and>
   activeQuestion (applyMessage h S (M_snapshot d)) = active_question d \<and>
   extension (applyMessage h S (M_snapshot d)) = UiStateSnapshot.extension d"
  by simp

section \<open>The reducer: streaming text\<close>

text \<open>
  C7. Streaming reassembly: a \<open>text_delta\<close> appends its delta to \<open>streamingBuffer\<close> and
  leaves \<open>entries\<close> as they are, so the deltas \<open>a\<close> and \<open>b\<close> in turn leave the buffer
  of the first state followed by \<open>ab\<close>; a \<open>text\<close> message after them (after any state)
  appends a \<open>Text\<close> entry to \<open>entries\<close> and empties \<open>streamingBuffer\<close>.
\<close>

theorem streaming_reassembly:
  "streamingBuffer (applyMessage h S (M_text_delta d)) = streamingBuffer S @ d \<and>
   entries (applyMessage h S (M_text_delta d)) = entries S \<and>
   streamingBuffer (applyMessage h2 (applyMessage h1 S (M_text_delta ''a'')) (M_text_delta ''b''))
     = streamingBuffer S @ ''ab'' \<and>
   entries (applyMessage h2 (applyMessage h1 S (M_text_delta ''a'')) (M_text_delta ''b''))
     = entries S \<and>
   entries (applyMessage h3
       (applyMessage h2 (applyMessage h1 S (M_text_delta ''a'')) (M_text_delta ''b'')) (M_text t))
     = entries S @ [Text t] \<and>
   streamingBuffer (applyMessage h3
       (applyMessage h2 (applyMessage h1 S (M_text_delta ''a'')) (M_text_delta ''b'')) (M_text t))
     = [] \<and>
   entries (applyMessage h S (M_text t)) = entries S @ [Text t] \<and>
   streamingBuffer (applyMessage h S (M_text t)) = []"
  by simp

section \<open>The reducer: unrecognized messages\<close>

lemma recognized_shapes: "(\<forall>t. m \<noteq> M_unrecognized t) \<Longrightarrow> msg_type m \<in> set case_labels"
  by (cases m) (simp_all add: case_labels_def)

text \<open>
  C8. For every session state and every message whose \<open>type\<close> is none of the labels of
  the reducer's \<open>switch\<close>, the reducer returns the state it was given. (The reducer has no
  \<open>throw\<close>: its result is a state in every case.)
\<close>

theorem unrecognized_message_ignored:
  "msg_type m \<notin> set case_labels \<Longrightarrow> applyMessage h S m = S"
  by (cases m) (simp_all add: case_labels_def)

theorem unrecognized_message_ignored_witness:
  "msg_type (M_unrecognized ''heartbeat'' :: int WsServerMessage) \<notin> set case_labels \<and>
   applyMessage (example_host ''10:00:00 AM'') INITIAL_STATE (M_unrecognized ''heartbeat'')
     = INITIAL_STATE"
proof -
  have t: "msg_type (M_unrecognized ''heartbeat'' :: int WsServerMessage) \<notin> set case_labels"
    by (simp add: case_labels_def)
  from unrecognized_message_ignored [OF t] t show ?thesis by blast
qed

section \<open>The reducer: the entries log\<close>

lemma findIndex_bounds: "findIndex p xs < int (length xs) \<and> - 1 \<le> findIndex p xs"
  by (induction xs) (auto simp: Let_def)

lemma findIndex_found:
  "0 \<le> findIndex p xs \<Longrightarrow>
     p (xs ! nat (findIndex p xs)) \<and> (\<forall>j < nat (findIndex p xs). \<not> p (xs ! j))"
proof (induction xs)
  case Nil
  then show ?case by simp
next
  case (Cons x xs)
  show ?case
  proof (cases "p x")
    case True
    then show ?thesis by simp
  next
    case False
    with Cons.prems have nn: "0 \<le> findIndex p xs"
      by (simp add: Let_def split: if_splits)
    with False have eq: "findIndex p (x # xs) = findIndex p xs + 1"
      by (simp add: Let_def)
    from Cons.IH [OF nn]
    have ih: "p (xs ! nat (findIndex p xs))" "\<forall>j < nat (findIndex p xs). \<not> p (xs ! j)"
      by simp_all
    have n: "nat (findIndex p xs + 1) = Suc (nat (findIndex p xs))"
      using nn by simp
    show ?thesis
      unfolding eq n using ih False by (auto simp: nth_Cons split: nat.splits)
  qed
qed

lemma entries_step:
  "(\<forall>d. m \<noteq> M_snapshot d) \<Longrightarrow>
     (\<exists>ys. entries (applyMessage h S m) = entries S @ ys) \<or>
     (\<exists>c i. m = M_todo_update c \<and> i < length (entries S) \<and> isTodoUpdate (entries S ! i) \<and>
        (\<forall>j<i. \<not> isTodoUpdate (entries S ! j)) \<and>
        entries (applyMessage h S m) = (entries S)[i := TodoUpdate c])"
proof (cases m)
  case (M_todo_update c)
  show ?thesis
  proof (cases "0 \<le> findIndex isTodoUpdate (entries S)")
    case True
    let ?i = "nat (findIndex isTodoUpdate (entries S))"
    have "?i < length (entries S)"
      using findIndex_bounds [of isTodoUpdate "entries S"] True by simp
    moreover note findIndex_found [OF True]
    moreover have "entries (applyMessage h S m) = (entries S)[?i := TodoUpdate c]"
      using True M_todo_update by simp
    ultimately show ?thesis
      using M_todo_update by blast
  next
    case False
    then show ?thesis
      using M_todo_update by simp
  qed
qed simp_all

text \<open>
  C9. For every session state \<open>S\<close> and every message \<open>m\<close> other than a snapshot, the
  entries after \<open>applyMessage\<close> are the entries of \<open>S\<close> followed by zero or more new
  entries, or, for a \<open>todo_update\<close> when \<open>S\<close> has a \<open>TodoUpdate\<close> entry, the entries of
  \<open>S\<close> with the first \<open>TodoUpdate\<close> entry replaced at its index. So no entry is removed
  (the list never gets shorter) and none is moved (every index of \<open>S\<close> keeps its entry,
  but for the \<open>TodoUpdate\<close> that a \<open>todo_update\<close> rewrites).
\<close>

theorem entries_append_or_replace:
  assumes "\<forall>d. m \<noteq> M_snapshot d"
  shows "((\<exists>ys. entries (applyMessage h S m) = entries S @ ys) \<or>
          (\<exists>c i. m = M_todo_update c \<and> i < length (entries S) \<and>
             isTodoUpdate (entries S ! i) \<and> (\<forall>j<i. \<not> isTodoUpdate (entries S ! j)) \<and>
             entries (applyMessage h S m) = (entries S)[i := TodoUpdate c])) \<and>
         length (entries S) \<le> length (entries (applyMessage h S m)) \<and>
         (\<forall>j<length (entries S).
             entries (applyMessage h S m) ! j = entries S ! j \<or>
             (\<exists>c. m = M_todo_update c \<and> isTodoUpdate (entries S ! j) \<and>
                  entries (applyMessage h S m) ! j = TodoUpdate c))"
proof -
  note step = entries_step [OF assms, of h S]
  have len: "length (entries S) \<le> length (entries (applyMessage h S m))"
    using step by (auto simp del: applyMessage.simps)
  have keep: "\<forall>j<length (entries S).
             entries (applyMessage h S m) ! j = entries S ! j \<or>
             (\<exists>c. m = M_todo_update c \<and> isTodoUpdate (entries S ! j) \<and>
                  entries (applyMessage h S m) ! j = TodoUpdate c)"
  proof (intro allI impI)
    fix j
    assume j: "j < length (entries S)"
    from step
    show "entries (applyMessage h S m) ! j = entries S ! j \<or>
             (\<exists>c. m = M_todo_update c \<and> isTodoUpdate (entries S ! j) \<and>
                  entries (applyMessage h S m) ! j = TodoUpdate c)"
    proof
      assume "\<exists>ys. entries (applyMessage h S m) = entries S @ ys"
      then show ?thesis
        using j by (auto simp: nth_append simp del: applyMessage.simps)
    next
      assume "\<exists>c i. m = M_todo_update c \<and> i < length (entries S) \<and>
             isTodoUpdate (entries S ! i) \<and> (\<forall>j<i. \<not> isTodoUpdate (entries S ! j)) \<and>
             entries (applyMessage h S m) = (entries S)[i := TodoUpdate c]"
      then obtain c i where ci: "m = M_todo_update c" "i < length (entries S)"
          "isTodoUpdate (entries S ! i)"
          "entries (applyMessage h S m) = (entries S)[i := TodoUpdate c]"
        by blast
      show ?thesis
      proof (cases "j = i")
        case True
        then show ?thesis
          using ci j by (simp del: applyMessage.simps)
      next
        case False
        then show ?thesis
          using ci j by (simp del: applyMessage.simps)
      qed
    qed
  qed
  from step len keep show ?thesis by blast
qed

theorem entries_append_or_replace_witness:
  "(\<forall>d. (M_todo_update ''new'' :: int WsServerMessage) \<noteq> M_snapshot d) \<and>
   entries (applyMessage (example_host ''10:00:00 AM'')
       (INITIAL_STATE\<lparr>entries := [Text ''hello'', TodoUpdate ''old'', UserMessage ''go on'']\<rparr>)
       (M_todo_update ''new''))
     = [Text ''hello'', TodoUpdate ''old'', UserMessage ''go on''][1 := TodoUpdate ''new''] \<and>
   length (entries (applyMessage (example_host ''10:00:00 AM'')
       (INITIAL_STATE\<lparr>entries := [Text ''hello'', TodoUpdate ''old'', UserMessage ''go on'']\<rparr>)
       (M_todo_update ''new''))) = 3"
  using entries_append_or_replace [of "M_todo_update ''new'' :: int WsServerMessage"
      "example_host ''10:00:00 AM''"
      "INITIAL_STATE\<lparr>entries := [Text ''hello'', TodoUpdate ''old'', UserMessage ''go on'']\<rparr>"]
  by (simp add: INITIAL_STATE_def)

section \<open>The reducer: the todo entry\<close>

lemma applyMessages_Nil: "applyMessages S [] = S"
  by (simp add: applyMessages_def)

lemma applyMessages_Cons:
  "applyMessages S ((h, m) # hms) = applyMessages (applyMessage h S m) hms"
  by (simp add: applyMessages_def)

lemma todo_update_on_singleton:
  "entries s = [TodoUpdate c0] \<Longrightarrow> entries (applyMessage h s (M_todo_update c)) = [TodoUpdate c]"
  by simp

lemma todo_update_on_empty:
  "entries s = [] \<Longrightarrow> entries (applyMessage h s (M_todo_update c)) = [TodoUpdate c]"
  by simp

lemma todo_run_from_singleton:
  "entries s = [TodoUpdate c0] \<Longrightarrow>
   entries (applyMessages s (map (\<lambda>(h, c). (h, M_todo_update c)) hcs))
     = [TodoUpdate (if hcs = [] then c0 else snd (last hcs))]"
proof (induction hcs arbitrary: s c0)
  case Nil
  then show ?case by (simp add: applyMessages_Nil)
next
  case (Cons hc hcs)
  obtain h c where hc: "hc = (h, c)" by (cases hc)
  have "entries (applyMessage h s (M_todo_update c)) = [TodoUpdate c]"
    using Cons.prems by (rule todo_update_on_singleton)
  from Cons.IH [OF this] show ?case
    by (simp add: hc applyMessages_Cons del: applyMessage.simps)
qed

text \<open>
  C3. Todo singleton. Take a state whose \<open>entries\<close> are empty and a non-empty sequence
  of \<open>todo_update\<close> messages (\<open>hcs\<close>: the content of each, with the host at its arrival).
  After the run the entries are exactly one \<open>TodoUpdate\<close> entry with the content of the
  last message; it is the only \<open>TodoUpdate\<close> entry, and it stands at the index where the
  first \<open>todo_update\<close> put it.
\<close>

theorem todo_singleton:
  assumes "entries S = []" and "hcs \<noteq> []"
  shows "entries (applyMessages S (map (\<lambda>(h, c). (h, M_todo_update c)) hcs))
           = [TodoUpdate (snd (last hcs))] \<and>
         filter isTodoUpdate
             (entries (applyMessages S (map (\<lambda>(h, c). (h, M_todo_update c)) hcs)))
           = [TodoUpdate (snd (last hcs))] \<and>
         findIndex isTodoUpdate
             (entries (applyMessages S (map (\<lambda>(h, c). (h, M_todo_update c)) hcs)))
           \<le> findIndex isTodoUpdate
               (entries (applyMessage (fst (hd hcs)) S (M_todo_update (snd (hd hcs)))))"
proof -
  obtain h c rest where hcs: "hcs = (h, c) # rest"
    using assms(2) by (cases hcs) auto
  have first: "entries (applyMessage h S (M_todo_update c)) = [TodoUpdate c]"
    using assms(1) by (rule todo_update_on_empty)
  have run: "entries (applyMessages S (map (\<lambda>(h, c). (h, M_todo_update c)) hcs))
           = [TodoUpdate (snd (last hcs))]"
    using todo_run_from_singleton [OF first, of rest]
    by (simp add: hcs applyMessages_Cons del: applyMessage.simps)
  show ?thesis
    unfolding run using first by (simp add: hcs del: applyMessage.simps)
qed

theorem todo_singleton_witness:
  "entries (INITIAL_STATE :: int AgentState) = [] \<and>
   [(example_host ''10:00:00 AM'', ''- [ ] a''), (example_host ''10:00:05 AM'', ''- [x] a'')]
     \<noteq> [] \<and>
   entries (applyMessages INITIAL_STATE
       [(example_host ''10:00:00 AM'', M_todo_update ''- [ ] a''),
        (example_host ''10:00:05 AM'', M_todo_update ''- [x] a'')])
     = [TodoUpdate ''- [x] a'']"
  using todo_singleton [of "INITIAL_STATE :: int AgentState"
      "[(example_host ''10:00:00 AM'', ''- [ ] a''), (example_host ''10:00:05 AM'', ''- [x] a'')]"]
  by (simp add: INITIAL_STATE_def)

section \<open>The reducer: what it reads besides its arguments\<close>

text \<open>
  The reducer has no \<open>throw\<close> and calls nothing that throws on a state and a message of
  the declared types, so its model returns a state in every case. Its result is not a
  function of the state and the message alone: six cases stamp the log line they append
  with the clock's reading at the call. Two calls on the same state and message at
  different readings of the clock return different states.
\<close>

theorem reducer_clock_counterexample:
  "applyMessage (example_host ''9:59:59 AM'') INITIAL_STATE (M_eviction 1200 3)
     \<noteq> applyMessage (example_host ''10:00:00 AM'') INITIAL_STATE (M_eviction 1200 3)"
  by (simp add: INITIAL_STATE_def example_host_def)

text \<open>
  C6, amended. The reducer is total (it returns a state for every state and message).
  For every message that is not \<open>eviction\<close>, \<open>compaction\<close>, \<open>checkpoint_saved\<close>,
  \<open>checkpoint_resumed\<close>, \<open>empty_response\<close> or \<open>approval_required\<close>, the result does not
  depend on the clock: two calls on the same state and message return equal states. For
  these six, the result is the previous state with one log line appended whose \<open>time\<close> is
  the reading of the clock at the call, and two calls on the same state and message differ
  in the \<open>time\<close> of that line and in nothing else.
\<close>

theorem reducer_deterministic_up_to_clock:
  "(\<not> reads_clock m \<longrightarrow>
      applyMessage (h\<lparr>toLocaleTimeString := t1\<rparr>) S m
        = applyMessage (h\<lparr>toLocaleTimeString := t2\<rparr>) S m) \<and>
   (reads_clock m \<longrightarrow>
      logs (applyMessage (h\<lparr>toLocaleTimeString := t1\<rparr>) S m)
        = logs S @ [last (logs (applyMessage (h\<lparr>toLocaleTimeString := t1\<rparr>) S m))] \<and>
      time (last (logs (applyMessage (h\<lparr>toLocaleTimeString := t1\<rparr>) S m))) = t1 \<and>
      applyMessage (h\<lparr>toLocaleTimeString := t2\<rparr>) S m
        = (applyMessage (h\<lparr>toLocaleTimeString := t1\<rparr>) S m)
            \<lparr>logs := logs S @
               [(last (logs (applyMessage (h\<lparr>toLocaleTimeString := t1\<rparr>) S m)))
                  \<lparr>time := t2\<rparr>]\<rparr>)"
  by (cases m) (simp_all add: Let_def)

theorem reducer_deterministic_up_to_clock_witness:
  "\<not> reads_clock (M_text ''hi'' :: int WsServerMessage) \<and>
   applyMessage (example_host ''9:59:59 AM'') INITIAL_STATE (M_text ''hi'')
     = applyMessage (example_host ''10:00:00 AM'') INITIAL_STATE (M_text ''hi'') \<and>
   reads_clock (M_eviction 1200 3 :: int WsServerMessage) \<and>
   applyMessage (example_host ''10:00:00 AM'') INITIAL_STATE (M_eviction 1200 3)
     = (applyMessage (example_host ''9:59:59 AM'') INITIAL_STATE (M_eviction 1200 3))
         \<lparr>logs := [\<lparr>time = ''10:00:00 AM'', level = Info,
                    message = ''Context eviction: freed 1200 chars from 3 tool result(s)''\<rparr>]\<rparr>"
proof -
  have a: "applyMessage (example_host ''9:59:59 AM'') INITIAL_STATE (M_text ''hi'')
     = applyMessage (example_host ''10:00:00 AM'') INITIAL_STATE (M_text ''hi'')"
    using reducer_deterministic_up_to_clock [where m = "M_text ''hi''" and h = "example_host []"
        and ?t1.0 = "''9:59:59 AM''" and ?t2.0 = "''10:00:00 AM''" and S = INITIAL_STATE]
    by (simp add: example_host_def)
  have d1: "decimal 1200 = ''1200''" by code_simp
  have d2: "decimal 3 = ''3''" by code_simp
  have b: "applyMessage (example_host ''10:00:00 AM'') INITIAL_STATE (M_eviction 1200 3)
     = (applyMessage (example_host ''9:59:59 AM'') INITIAL_STATE (M_eviction 1200 3))
         \<lparr>logs := [\<lparr>time = ''10:00:00 AM'', level = Info,
                    message = ''Context eviction: freed 1200 chars from 3 tool result(s)''\<rparr>]\<rparr>"
    using reducer_deterministic_up_to_clock [where m = "M_eviction 1200 3"
        and h = "example_host []"
        and ?t1.0 = "''9:59:59 AM''" and ?t2.0 = "''10:00:00 AM''" and S = INITIAL_STATE]
    by (simp add: example_host_def INITIAL_STATE_def d1 d2)
  have r1: "\<not> reads_clock (M_text ''hi'' :: int WsServerMessage)" by simp
  have r2: "reads_clock (M_eviction 1200 3 :: int WsServerMessage)" by simp
  show ?thesis by (intro conjI r1 a r2 b)
qed

section \<open>The connection manager: backoff\<close>

lemma failed_attempt_fields:
  "\<not> cancelled s \<Longrightarrow>
     retryDelayRef (failed_attempt s) = 2 * min (retryDelayRef s) 16000 \<and>
     timeoutId (failed_attempt s) = Some (min (retryDelayRef s) 16000) \<and>
     \<not> cancelled (failed_attempt s) \<and> \<not> connected (failed_attempt s)"
  by (simp add: failed_attempt_def connect_def onclose_def MAX_RETRY_DELAY_def Let_def)

lemma retry_after_failures:
  "\<not> cancelled s \<Longrightarrow> retryDelayRef s = 1000 \<Longrightarrow>
     \<not> cancelled ((failed_attempt ^^ n) s) \<and>
     retryDelayRef ((failed_attempt ^^ n) s)
       = (if n = 0 then 1000 else 2 * min (1000 * 2 ^ (n - 1)) 16000)"
proof (induction n)
  case 0
  then show ?case by simp
next
  case (Suc n)
  then have nc: "\<not> cancelled ((failed_attempt ^^ n) s)"
    and rd: "retryDelayRef ((failed_attempt ^^ n) s)
       = (if n = 0 then 1000 else 2 * min (1000 * 2 ^ (n - 1)) 16000)"
    by simp_all
  from failed_attempt_fields [OF nc] rd show ?case
    by (cases n) (auto simp: min_def)
qed

lemma min_doubled:
  "min (if n = 0 then 1000 else 2 * min (1000 * 2 ^ (n - 1)) 16000) (16000::int)
     = min (1000 * 2 ^ n) 16000"
proof (cases n)
  case 0
  then show ?thesis by simp
next
  case (Suc k)
  then show ?thesis by (auto simp: min_def)
qed

text \<open>
  C4. Backoff bounds. Starting from the initial delay (a state whose \<open>retryDelayRef\<close> is
  1000, such as the initial state and every state just after \<open>onopen\<close>), after \<open>n\<close>
  closures in a row, each followed by its reconnect attempt and none by an open, the next
  closure schedules the reconnect after \<open>min (1000 * 2 ^ n) 16000\<close> milliseconds (1000 for
  the first failure); \<open>onopen\<close> sets the delay back, so the closure after it schedules
  1000. (The hook schedules nothing once it is torn down: \<open>cancelled\<close>.)
\<close>

theorem backoff_bounds:
  "(\<not> cancelled s \<and> retryDelayRef s = 1000 \<longrightarrow>
      timeoutId (onclose ((failed_attempt ^^ n) s)) = Some (min (1000 * 2 ^ n) 16000)) \<and>
   timeoutId (onclose ((failed_attempt ^^ n) socket_init)) = Some (min (1000 * 2 ^ n) 16000) \<and>
   retryDelayRef (onopen s) = 1000 \<and>
   (\<not> cancelled s \<longrightarrow>
      timeoutId (onclose ((failed_attempt ^^ n) (onopen s))) = Some (min (1000 * 2 ^ n) 16000)) \<and>
   (\<not> cancelled s \<longrightarrow> timeoutId (onclose (onopen s)) = Some 1000)"
proof -
  have gen: "timeoutId (onclose ((failed_attempt ^^ n) s)) = Some (min (1000 * 2 ^ n) 16000)"
    if "\<not> cancelled s" "retryDelayRef s = 1000" for s n
  proof -
    from retry_after_failures [OF that, of n]
    show ?thesis by (simp add: onclose_def Let_def MAX_RETRY_DELAY_def min_doubled)
  qed
  have i: "\<not> cancelled socket_init" "retryDelayRef socket_init = 1000"
    by (simp_all add: socket_init_def)
  have o: "retryDelayRef (onopen s) = 1000" "cancelled (onopen s) = cancelled s"
    by (simp_all add: onopen_def)
  show ?thesis
    using gen [of s n] gen [OF i, of n] gen [of "onopen s" n] gen [of "onopen s" 0] o
    by simp
qed

theorem backoff_bounds_witness:
  "\<not> cancelled socket_init \<and> retryDelayRef socket_init = 1000 \<and>
   timeoutId (onclose socket_init) = Some 1000 \<and>
   timeoutId (onclose ((failed_attempt ^^ 3) socket_init)) = Some 8000 \<and>
   timeoutId (onclose ((failed_attempt ^^ 5) socket_init)) = Some 16000 \<and>
   timeoutId (onclose (onopen ((failed_attempt ^^ 5) socket_init))) = Some 1000"
proof -
  have i: "\<not> cancelled socket_init" "retryDelayRef socket_init = 1000"
    by (simp_all add: socket_init_def)
  have c5: "\<not> cancelled ((failed_attempt ^^ 5) socket_init)"
    using retry_after_failures [OF i, of 5] by simp
  show ?thesis
    using i c5 backoff_bounds [of socket_init 0] backoff_bounds [of socket_init 3]
      backoff_bounds [of socket_init 5] backoff_bounds [of "(failed_attempt ^^ 5) socket_init" 0]
    by simp
qed

section \<open>The connection status toast: the announcement\<close>

text \<open>
  What the effect does. When the toast renders with the connection open and the value it
  saw before was \<open>false\<close>, the phase becomes \<open>reconnected\<close>; with no other render it
  is \<open>reconnected\<close> until 2000 ms have passed, then \<open>exiting\<close>, and \<open>hidden\<close> from
  2350 ms on (350 ms later). When the value it saw before was \<open>true\<close> nothing changes
  and nothing is announced: \<open>prevConnectedRef\<close> starts as \<open>true\<close>, so a first render
  that found the connection open would announce nothing. A render with the connection
  closed shows \<open>disconnected\<close>, also the first render.
\<close>

lemma reconnect_announcement:
  "(\<not> prevConnectedRef s \<longrightarrow>
      phaseRef (render True s) = reconnected \<and>
      (\<forall>d. phaseRef (advance d (render True s)) =
            (if d < 2000 then reconnected else if d < 2350 then exiting else hidden)) \<and>
      phaseRef (advance 2000 (render True s)) = exiting \<and>
      phaseRef (advance 350 (advance 2000 (render True s))) = hidden) \<and>
   (prevConnectedRef s \<longrightarrow> render True s = s \<and> effect True s = s) \<and>
   mount True = status_init \<and>
   phaseRef (render False s) = (if prevConnectedRef s then disconnected else phaseRef s) \<and>
   phaseRef (mount False) = disconnected \<and> \<not> prevConnectedRef (mount False)"
  by (auto simp: render_def effect_def cleanup_def advance_def mount_def status_init_def Let_def)

lemma reconnect_announcement_run:
  "\<not> prevConnectedRef (mount False) \<and>
   phaseRef (render True (mount False)) = reconnected \<and>
   phaseRef (advance 1999 (render True (mount False))) = reconnected \<and>
   phaseRef (advance 2000 (render True (mount False))) = exiting \<and>
   phaseRef (advance 2349 (render True (mount False))) = exiting \<and>
   phaseRef (advance 2350 (render True (mount False))) = hidden \<and>
   prevConnectedRef status_init \<and>
   render True status_init = status_init"
proof -
  have p: "prevConnectedRef status_init"
    by (simp add: status_init_def)
  have q: "\<not> prevConnectedRef (mount False)"
    by (simp add: mount_def effect_def status_init_def Let_def)
  show ?thesis
    using p q reconnect_announcement [of "mount False"] reconnect_announcement [of status_init]
    by simp
qed

text \<open>
  C5. The claim: regaining the connection after a loss is announced as \<open>reconnected\<close>,
  and the very first successful connection is not announced. The component aims at this:
  \<open>prevConnectedRef\<close> starts as \<open>true\<close>, and the branch that announces (\<open>Just
  reconnected\<close>) is guarded by \<open>!wasConnected\<close>. On the page the guard does not hold
  the first connection back. The hook starts with \<open>connected = false\<close>, so the toast's
  first render runs the effect with \<open>false\<close>: it overwrites \<open>prevConnectedRef\<close> with
  \<open>false\<close> and shows \<open>disconnected\<close>. The first \<open>onopen\<close> is then a change from
  \<open>false\<close> to \<open>true\<close>, and the phase becomes \<open>reconnected\<close>: the first connection of
  a page load is announced as a recovery.
\<close>

theorem first_connect_announced:
  "prevConnectedRef status_init \<and>
   \<not> connected socket_init \<and>
   phaseRef (toast page_load) = disconnected \<and>
   \<not> prevConnectedRef (toast page_load) \<and>
   phaseRef (toast (page_onopen page_load)) = reconnected"
  by (simp add: page_load_def page_onopen_def mount_def render_def effect_def cleanup_def
      status_init_def socket_init_def onopen_def connect_def Let_def)

section \<open>The entry resolver: pairing\<close>

lemma greedy_TE_other:
  "rest = [] \<or> \<not> adjacent_pair (ToolExecuting n a) (hd rest) \<Longrightarrow>
     greedy (ToolExecuting n a # rest) = R_tool n a None None # greedy rest"
  apply (cases rest)
   apply simp
  subgoal for x xs by (cases x) auto
  done

lemma loop_greedy:
  "i \<le> length es \<Longrightarrow>
   resolveLoop es i acc =
     acc @ (if paired es i then greedy (drop (Suc i) es) else greedy (drop i es))"
proof (induction es i acc rule: resolveLoop.induct)
  case (1 es i acc)
  show ?case
  proof (cases "i < length es")
    case False
    have stop: "resolveLoop es i acc = acc"
      using False by (subst resolveLoop.simps) simp
    from False "1.prems" have "i = length es" by simp
    then show ?thesis unfolding stop by (simp add: paired_def)
  next
    case True
    then have le: "i + 1 \<le> length es" by simp
    note ih = "1.IH" [OF True le]
    have d: "drop i es = es ! i # drop (Suc i) es"
      using True by (simp add: Cons_nth_drop_Suc)
    have unfold: "resolveLoop es i acc = resolveStep es i acc @
        (if paired es (i + 1) then greedy (drop (Suc (i + 1)) es) else greedy (drop (i + 1) es))"
      using True ih by (simp add: resolveLoop.simps [of es i])
    show ?thesis
    proof (cases "es ! i")
      case (Text t)
      then show ?thesis unfolding unfold using True
        by (simp add: resolveStep_def paired_def d)
    next
      case (UserMessage m)
      then show ?thesis unfolding unfold using True
        by (simp add: resolveStep_def paired_def d)
    next
      case (TodoUpdate c)
      then show ?thesis unfolding unfold using True
        by (simp add: resolveStep_def paired_def d)
    next
      case (ToolResult n r e)
      have gi: "greedy (drop i es) = R_orphan_result n r e # greedy (drop (Suc i) es)"
        by (simp add: d ToolResult)
      have np1: "\<not> paired es (Suc i)"
        using ToolResult by (simp add: paired_def)
      have step: "resolveStep es i acc = (if paired es i then acc else acc @ [R_orphan_result n r e])"
        using True ToolResult
        by (cases i)
          (auto simp: resolveStep_def paired_def elem_at_def nat_diff_distrib
            split: AgentEntry.splits option.splits)
      show ?thesis
        unfolding unfold by (simp add: gi np1 step)
    next
      case (ToolExecuting n a)
      have np: "\<not> paired es i" using ToolExecuting by (simp add: paired_def)
      show ?thesis
      proof (cases "Suc i < length es")
        case False
        then have "drop (Suc i) es = []" by simp
        then show ?thesis unfolding unfold using True False ToolExecuting np
          by (simp add: resolveStep_def paired_def d elem_at_def)
      next
        case si: True
        have d2: "drop (Suc i) es = es ! Suc i # drop (Suc (Suc i)) es"
          using si by (simp add: Cons_nth_drop_Suc)
        show ?thesis unfolding unfold using True si ToolExecuting np
          by (cases "es ! Suc i")
            (auto simp: resolveStep_def paired_def d d2 elem_at_def nat_add_distrib)
      qed
    qed
  qed
qed

lemma resolveEntries_greedy: "resolveEntries es = greedy es"
  using loop_greedy [of 0 es "[]"] by (simp add: resolveEntries_def paired_def)

lemma greedy_append:
  "xs = [] \<or> ys = [] \<or> \<not> adjacent_pair (last xs) (hd ys) \<Longrightarrow>
     greedy (xs @ ys) = greedy xs @ greedy ys"
proof (induction xs rule: greedy.induct)
  case 1
  then show ?case by simp
next
  case (2 n a n' r e rest)
  then show ?case by (cases "rest = []") (auto split: if_splits)
qed (auto simp: greedy_TE_other split: if_splits)

lemma greedy_results:
  "concat (map shown_result (greedy es)) = concat (map result_of es)"
  by (induction es rule: greedy.induct) auto

lemma resolveEntries_append:
  "xs = [] \<or> ys = [] \<or> \<not> adjacent_pair (last xs) (hd ys) \<Longrightarrow>
     resolveEntries (xs @ ys) = resolveEntries xs @ resolveEntries ys"
  by (simp only: resolveEntries_greedy greedy_append)

lemma resolveEntries_before_call:
  "resolveEntries (pre @ ToolExecuting n a # rest)
     = resolveEntries pre @ resolveEntries (ToolExecuting n a # rest)"
  by (rule resolveEntries_append) simp

lemma resolveEntries_after_result:
  "resolveEntries (xs @ ToolResult n r e # post)
     = resolveEntries (xs @ [ToolResult n r e]) @ resolveEntries post"
  using resolveEntries_append [of "xs @ [ToolResult n r e]" post] by simp

lemma resolveEntries_pair:
  "resolveEntries (pre @ [ToolExecuting n a, ToolResult n r e] @ post)
     = resolveEntries pre @ [R_tool n a (Some r) (Some e)] @ resolveEntries post"
proof -
  have "resolveEntries (pre @ [ToolExecuting n a, ToolResult n r e] @ post)
      = resolveEntries pre @ resolveEntries (ToolExecuting n a # ToolResult n r e # post)"
    using resolveEntries_before_call [of pre n a "ToolResult n r e # post"] by simp
  then show ?thesis by (simp add: resolveEntries_greedy)
qed

lemma resolveEntries_orphan:
  assumes "pre = [] \<or> \<not> adjacent_pair (last pre) (ToolResult n r e)"
  shows "resolveEntries (pre @ [ToolResult n r e] @ post)
     = resolveEntries pre @ [R_orphan_result n r e] @ resolveEntries post"
proof -
  have "resolveEntries (pre @ ToolResult n r e # post)
      = resolveEntries pre @ resolveEntries (ToolResult n r e # post)"
    using assms by (intro resolveEntries_append) auto
  then show ?thesis by (simp add: resolveEntries_greedy)
qed

lemma resolveEntries_pending:
  assumes "post = [] \<or> \<not> adjacent_pair (ToolExecuting n a) (hd post)"
  shows "resolveEntries (pre @ [ToolExecuting n a] @ post)
     = resolveEntries pre @ [R_tool n a None None] @ resolveEntries post"
proof -
  have "resolveEntries (pre @ [ToolExecuting n a] @ post)
      = resolveEntries pre @ resolveEntries (ToolExecuting n a # post)"
    using resolveEntries_before_call [of pre n a post] by simp
  then show ?thesis using assms by (simp add: resolveEntries_greedy greedy_TE_other)
qed

lemma greedy_call_head:
  "hd (greedy (ToolExecuting n a # x # rest)) = hd (greedy [ToolExecuting n a, x])"
  by (cases x) auto

text \<open>
  A \<open>ToolResult\<close> that an entry separates from a \<open>ToolExecuting\<close> of its name is paired
  all the same when that entry is itself a \<open>ToolExecuting\<close> of the name: the result goes
  with the call right before it. Two calls of one tool whose results arrive after both
  calls: the first call stays pending, the second call takes the first result, and the
  second result is an orphan.
\<close>

theorem separated_result_paired:
  "resolveEntries [ToolExecuting ''grep'' ''q1'', ToolExecuting ''grep'' ''q2'',
       ToolResult ''grep'' ''r1'' False]
     = [R_tool ''grep'' ''q1'' None None, R_tool ''grep'' ''q2'' (Some ''r1'') (Some False)] \<and>
   resolveEntries [ToolExecuting ''grep'' ''q1'', ToolExecuting ''grep'' ''q2'',
       ToolResult ''grep'' ''r1'' False, ToolResult ''grep'' ''r2'' False]
     = [R_tool ''grep'' ''q1'' None None, R_tool ''grep'' ''q2'' (Some ''r1'') (Some False),
        R_orphan_result ''grep'' ''r2'' False]"
  by (simp add: resolveEntries_greedy)

text \<open>
  C2, amended. Pairing adjacency. A \<open>ToolExecuting\<close> is paired only with the entry right
  after it, when that is a \<open>ToolResult\<close> of the same name:
  \<^item> \<open>[ToolExecuting A, ToolResult A]\<close> resolves to the one \<open>tool\<close> entry with the result
    and the error flag, and so does the pair anywhere in a list;
  \<^item> \<open>[ToolExecuting A, Text x, ToolResult A]\<close> resolves to the pending \<open>tool\<close> entry
    (result undefined), the \<open>text\<close> entry and the \<open>orphan_result\<close> for \<open>A\<close>;
  \<^item> a result of another name right after the call is not paired;
  \<^item> whatever follows a call whose next entry is not its result, the call stays pending:
    no later \<open>ToolResult\<close> is paired with it;
  \<^item> with entries \<open>mid\<close> between the call and the result (the first of them not a result
    for the call, the last not a call for the result), the call is pending and the result
    an orphan;
  \<^item> when the last entry between them is itself a call of the name, the result is paired
    with that call;
  \<^item> with any entries \<open>mid\<close> between a call and a result of its name, the entry resolved
    for the call is the one that the call and the entry right after it give: the
    separated result is never paired with that call.
\<close>

theorem pairing_adjacency:
  "resolveEntries [ToolExecuting A args, ToolResult A r e] = [R_tool A args (Some r) (Some e)] \<and>
   resolveEntries [ToolExecuting A args, Text x, ToolResult A r e]
     = [R_tool A args None None, R_text x, R_orphan_result A r e] \<and>
   resolveEntries (pre @ [ToolExecuting A args, ToolResult A r e] @ post)
     = resolveEntries pre @ [R_tool A args (Some r) (Some e)] @ resolveEntries post \<and>
   (n \<noteq> A \<longrightarrow>
      resolveEntries (pre @ [ToolExecuting A args, ToolResult n r e] @ post)
        = resolveEntries pre @ [R_tool A args None None, R_orphan_result n r e]
            @ resolveEntries post) \<and>
   (post = [] \<or> \<not> adjacent_pair (ToolExecuting A args) (hd post) \<longrightarrow>
      resolveEntries (pre @ [ToolExecuting A args] @ post)
        = resolveEntries pre @ [R_tool A args None None] @ resolveEntries post) \<and>
   (mid \<noteq> [] \<and> \<not> adjacent_pair (ToolExecuting A args) (hd mid) \<and>
    \<not> adjacent_pair (last mid) (ToolResult A r e) \<longrightarrow>
      resolveEntries (pre @ [ToolExecuting A args] @ mid @ [ToolResult A r e] @ post)
        = resolveEntries pre @ [R_tool A args None None] @ resolveEntries mid
            @ [R_orphan_result A r e] @ resolveEntries post) \<and>
   resolveEntries (pre @ [ToolExecuting A args] @ mid
       @ [ToolExecuting A args2, ToolResult A r e] @ post)
     = resolveEntries (pre @ [ToolExecuting A args] @ mid)
         @ [R_tool A args2 (Some r) (Some e)] @ resolveEntries post \<and>
   (mid \<noteq> [] \<longrightarrow>
      resolveEntries (pre @ [ToolExecuting A args] @ mid @ [ToolResult A r e] @ post)
        = resolveEntries pre
            @ resolveEntries ([ToolExecuting A args] @ mid @ [ToolResult A r e] @ post) \<and>
      hd (resolveEntries ([ToolExecuting A args] @ mid @ [ToolResult A r e] @ post))
        = hd (resolveEntries [ToolExecuting A args, hd mid]))"
proof -
  have c7: "resolveEntries (pre @ [ToolExecuting A args] @ mid
       @ [ToolExecuting A args2, ToolResult A r e] @ post)
     = resolveEntries (pre @ [ToolExecuting A args] @ mid)
         @ [R_tool A args2 (Some r) (Some e)] @ resolveEntries post"
    using resolveEntries_pair [of "pre @ [ToolExecuting A args] @ mid" A args2 r e post]
    by simp
  have c8: "resolveEntries (pre @ [ToolExecuting A args] @ mid @ [ToolResult A r e] @ post)
        = resolveEntries pre
            @ resolveEntries ([ToolExecuting A args] @ mid @ [ToolResult A r e] @ post) \<and>
      hd (resolveEntries ([ToolExecuting A args] @ mid @ [ToolResult A r e] @ post))
        = hd (resolveEntries [ToolExecuting A args, hd mid])" if nonempty: "mid \<noteq> []"
  proof -
    obtain x rest where mid: "mid = x # rest"
      using nonempty by (cases mid) auto
    have "resolveEntries (pre @ [ToolExecuting A args] @ mid @ [ToolResult A r e] @ post)
        = resolveEntries pre
            @ resolveEntries ([ToolExecuting A args] @ mid @ [ToolResult A r e] @ post)"
      using resolveEntries_before_call [of pre A args "mid @ [ToolResult A r e] @ post"]
      by simp
    moreover have "hd (resolveEntries ([ToolExecuting A args] @ mid @ [ToolResult A r e] @ post))
        = hd (resolveEntries [ToolExecuting A args, hd mid])"
      using greedy_call_head [of A args x "rest @ [ToolResult A r e] @ post"]
      by (simp add: mid resolveEntries_greedy del: greedy.simps)
    ultimately show ?thesis by blast
  qed
  have c1: "resolveEntries [ToolExecuting A args, ToolResult A r e]
      = [R_tool A args (Some r) (Some e)]"
    by (simp add: resolveEntries_greedy)
  have c2: "resolveEntries [ToolExecuting A args, Text x, ToolResult A r e]
     = [R_tool A args None None, R_text x, R_orphan_result A r e]"
    by (simp add: resolveEntries_greedy)
  note c3 = resolveEntries_pair [of pre A args r e post]
  have c4: "resolveEntries (pre @ [ToolExecuting A args, ToolResult n r e] @ post)
        = resolveEntries pre @ [R_tool A args None None, R_orphan_result n r e]
            @ resolveEntries post" if "n \<noteq> A"
  proof -
    have "resolveEntries (pre @ [ToolExecuting A args] @ (ToolResult n r e # post))
        = resolveEntries pre @ [R_tool A args None None]
            @ resolveEntries (ToolResult n r e # post)"
      using that by (intro resolveEntries_pending) simp
    moreover have "resolveEntries (ToolResult n r e # post)
        = R_orphan_result n r e # resolveEntries post"
      by (simp add: resolveEntries_greedy)
    ultimately show ?thesis by simp
  qed
  have c5: "resolveEntries (pre @ [ToolExecuting A args] @ post)
        = resolveEntries pre @ [R_tool A args None None] @ resolveEntries post"
    if "post = [] \<or> \<not> adjacent_pair (ToolExecuting A args) (hd post)"
    using that by (rule resolveEntries_pending)
  have c6: "resolveEntries (pre @ [ToolExecuting A args] @ mid @ [ToolResult A r e] @ post)
        = resolveEntries pre @ [R_tool A args None None] @ resolveEntries mid
            @ [R_orphan_result A r e] @ resolveEntries post"
    if m: "mid \<noteq> []" "\<not> adjacent_pair (ToolExecuting A args) (hd mid)"
      "\<not> adjacent_pair (last mid) (ToolResult A r e)"
  proof -
    have "resolveEntries (pre @ [ToolExecuting A args] @ (mid @ [ToolResult A r e] @ post))
        = resolveEntries pre @ [R_tool A args None None]
            @ resolveEntries (mid @ [ToolResult A r e] @ post)"
      using m by (intro resolveEntries_pending) simp
    moreover have "resolveEntries (mid @ [ToolResult A r e] @ post)
        = resolveEntries mid @ [R_orphan_result A r e] @ resolveEntries post"
      using m by (intro resolveEntries_orphan) simp
    ultimately show ?thesis by simp
  qed
  from c1 c2 c3 c4 c5 c6 c7 c8 show ?thesis by blast
qed

theorem pairing_adjacency_witness:
  "resolveEntries [ToolExecuting ''grep'' ''{}'', ToolResult ''grep'' ''3 matches'' False]
     = [R_tool ''grep'' ''{}'' (Some ''3 matches'') (Some False)] \<and>
   resolveEntries [ToolExecuting ''grep'' ''{}'', ToolResult ''read'' ''ok'' False]
     = [R_tool ''grep'' ''{}'' None None, R_orphan_result ''read'' ''ok'' False] \<and>
   resolveEntries [ToolExecuting ''grep'' ''{}'', Text ''x'', UserMessage ''y'',
       ToolResult ''grep'' ''3 matches'' False]
     = [R_tool ''grep'' ''{}'' None None, R_text ''x'', R_user ''y'',
        R_orphan_result ''grep'' ''3 matches'' False]"
proof -
  have m: "resolveEntries [Text ''x'', UserMessage ''y''] = [R_text ''x'', R_user ''y'']"
    by (simp add: resolveEntries_greedy)
  have n: "resolveEntries [] = []"
    by (simp add: resolveEntries_greedy)
  show ?thesis
    using pairing_adjacency [where A = "''grep''" and args = "''{}''" and r = "''3 matches''"
        and e = False and pre = "[]" and post = "[]" and n = "''grep''"
        and mid = "[Text ''x'', UserMessage ''y'']"]
      pairing_adjacency [where A = "''grep''" and args = "''{}''" and r = "''ok''"
        and e = False and pre = "[]" and post = "[]" and n = "''read''" and mid = "[]"]
    by (simp add: m n)
qed

text \<open>
  C10. Every \<open>ToolResult\<close> entry is shown by exactly one resolved entry. Right after
  a \<open>ToolExecuting\<close> of the same name, it is merged into that call's \<open>tool\<close> entry and
  nothing else is emitted for it: the output is the output for what stands before the
  pair, the merged entry, and the output for what stands after. Anywhere else it is
  emitted as one \<open>orphan_result\<close>, between the output for what stands before it and the
  output for what stands after it. Over a whole list, the results shown by the resolved
  entries are the results of the \<open>ToolResult\<close> entries, each once and in order: none is
  dropped and none is shown twice.
\<close>

theorem tool_result_shown_once:
  "resolveEntries (pre @ [ToolExecuting n a, ToolResult n r e] @ post)
     = resolveEntries pre @ [R_tool n a (Some r) (Some e)] @ resolveEntries post \<and>
   (pre = [] \<or> \<not> adjacent_pair (last pre) (ToolResult n r e) \<longrightarrow>
      resolveEntries (pre @ [ToolResult n r e] @ post)
        = resolveEntries pre @ [R_orphan_result n r e] @ resolveEntries post) \<and>
   concat (map shown_result (resolveEntries es)) = concat (map result_of es)"
  using resolveEntries_pair [of pre n a r e post] resolveEntries_orphan [of pre n r e post]
    greedy_results [of es]
  by (simp only: resolveEntries_greedy) blast

theorem tool_result_shown_once_witness:
  "\<not> adjacent_pair (last [ToolExecuting ''grep'' ''{}'', ToolResult ''grep'' ''1'' False])
       (ToolResult ''grep'' ''2'' True) \<and>
   resolveEntries [ToolExecuting ''grep'' ''{}'', ToolResult ''grep'' ''1'' False,
       ToolResult ''grep'' ''2'' True, TodoUpdate ''t'']
     = [R_tool ''grep'' ''{}'' (Some ''1'') (Some False), R_orphan_result ''grep'' ''2'' True,
        R_todo ''t'']"
proof -
  have p: "resolveEntries [ToolExecuting ''grep'' ''{}'', ToolResult ''grep'' ''1'' False]
      = [R_tool ''grep'' ''{}'' (Some ''1'') (Some False)]"
    by (simp add: resolveEntries_greedy)
  have q: "resolveEntries [TodoUpdate ''t''] = [R_todo ''t'']"
    by (simp add: resolveEntries_greedy)
  show ?thesis
    using tool_result_shown_once [where pre = "[ToolExecuting ''grep'' ''{}'', ToolResult ''grep'' ''1'' False]"
        and n = "''grep''" and r = "''2''" and e = True and post = "[TodoUpdate ''t'']"]
    by (simp add: p q)
qed

end
